theory Spec2Isabelle
  imports
    Main
    "HOL-Library.AList"
    "HOL-Library.Sublist"
    "HOL-Library.Char_ord"
    "HOL-Library.List_Lexorder"
    "HOL-Library.Product_Lexorder"
begin

section \<open>Values shared by both scripts\<close>

text \<open>
  Both scripts work on the values that \<^verbatim>\<open>json.loads\<close> returns. A Python \<^verbatim>\<open>dict\<close> keeps
  its keys in insertion order, so an object is the list of its items; \<^verbatim>\<open>None\<close> is
  \<open>JNull\<close>. A \<^verbatim>\<open>float\<close> is kept as mantissa and exponent (or one of the non-finite
  values \<^verbatim>\<open>json.loads\<close> accepts): the scripts only ever test it for truth.
  A \<open>char\<close> stands for one code point of a Python \<^verbatim>\<open>str\<close>.
\<close>

datatype pyfloat = Finite int int | Infinite bool | NaN

datatype json =
    JNull
  | JBool bool
  | JInt int
  | JFloat pyfloat
  | JStr string
  | JArr "json list"
  | JObj "(string \<times> json) list"

text \<open>The exceptions the two scripts can meet. All of them derive from \<^verbatim>\<open>Exception\<close>.\<close>

datatype py_error =
    AttributeError
  | TypeError
  | IndexError
  | KeyError
  | ValueError
  | RecursionError
  | OSError
  | JSONDecodeError string

text \<open>\<^verbatim>\<open>needle in haystack\<close> on two strings.\<close>

fun contains :: "string \<Rightarrow> string \<Rightarrow> bool" where
  "contains needle [] = (needle = [])"
| "contains needle (c # cs) = (prefix needle (c # cs) \<or> contains needle cs)"

text \<open>\<^verbatim>\<open>x.get(key, default)\<close>: only a dict has the method.\<close>

fun py_get :: "json \<Rightarrow> string \<Rightarrow> json \<Rightarrow> py_error + json" where
  "py_get (JObj kvs) k d = Inr (case map_of kvs k of None \<Rightarrow> d | Some v \<Rightarrow> v)"
| "py_get _ k d = Inl AttributeError"

text \<open>Truth value of a JSON value in a condition.\<close>

fun truthy :: "json \<Rightarrow> bool" where
  "truthy JNull = False"
| "truthy (JBool b) = b"
| "truthy (JInt i) = (i \<noteq> 0)"
| "truthy (JFloat (Finite m e)) = (m \<noteq> 0)"
| "truthy (JFloat _) = True"
| "truthy (JStr s) = (s \<noteq> [])"
| "truthy (JArr xs) = (xs \<noteq> [])"
| "truthy (JObj kvs) = (kvs \<noteq> [])"

text \<open>\<^verbatim>\<open>key in x\<close> for a string key: membership in a dict's keys or in a list, substring of
  a string, \<^verbatim>\<open>TypeError\<close> on anything else.\<close>

fun py_in :: "string \<Rightarrow> json \<Rightarrow> py_error + bool" where
  "py_in k (JObj kvs) = Inr (k \<in> set (map fst kvs))"
| "py_in k (JArr xs) = Inr (JStr k \<in> set xs)"
| "py_in k (JStr s) = Inr (contains k s)"
| "py_in k _ = Inl TypeError"

text \<open>\<^verbatim>\<open>x[key]\<close> for a string key, reached only after \<^verbatim>\<open>key in x\<close> was true.\<close>

fun py_index :: "json \<Rightarrow> string \<Rightarrow> py_error + json" where
  "py_index (JObj kvs) k = (case map_of kvs k of None \<Rightarrow> Inl KeyError | Some v \<Rightarrow> Inr v)"
| "py_index _ k = Inl TypeError"

section \<open>Flow Summarizer (scripts/flow\_extractor.py)\<close>

text \<open>What the addon reads of a flow. \<^verbatim>\<open>get_text()\<close> gives \<^verbatim>\<open>None\<close> for a request without
  content and raises \<^verbatim>\<open>ValueError\<close> when the body cannot be decoded.\<close>

record flow =
  pretty_host :: string
  "method" :: string
  url :: string
  path :: string
  get_text :: "py_error + string option"

record summarizer =
  endpoints :: "(string \<times> int) list"
  graphql_calls :: "json list"
  hosts :: "(string \<times> int) list"
  output_path :: string

text \<open>\<^verbatim>\<open>__init__\<close>, given the process environment.\<close>

definition init :: "(string \<rightharpoonup> string) \<Rightarrow> summarizer" where
  "init env =
     \<lparr> endpoints = [],
       graphql_calls = [],
       hosts = [],
       output_path =
         (case env ''SUMMARY_OUTPUT_PATH'' of None \<Rightarrow> ''summary.json'' | Some p \<Rightarrow> p) \<rparr>"

text \<open>\<^verbatim>\<open>d.get(k, 0)\<close> and \<^verbatim>\<open>d[k] = d.get(k, 0) + 1\<close> on a tally.\<close>

definition get0 :: "(string \<times> int) list \<Rightarrow> string \<Rightarrow> int" where
  "get0 d k = (case map_of d k of None \<Rightarrow> 0 | Some c \<Rightarrow> c)"

definition bump :: "(string \<times> int) list \<Rightarrow> string \<Rightarrow> (string \<times> int) list" where
  "bump d k = AList.update k (get0 d k + 1) d"

definition endpoint_key :: "flow \<Rightarrow> string" where
  "endpoint_key f = method f @ '' '' @ url f"

text \<open>The hash of \<^verbatim>\<open>_process_graphql_item\<close>: \<^verbatim>\<open>None\<close> unless \<^verbatim>\<open>extensions\<close> is truthy and
  holds \<^verbatim>\<open>persistedQuery\<close>.\<close>

definition sha256_of :: "json \<Rightarrow> py_error + json" where
  "sha256_of extensions =
     (if truthy extensions then
        (case py_in ''persistedQuery'' extensions of
           Inl e \<Rightarrow> Inl e
         | Inr False \<Rightarrow> Inr JNull
         | Inr True \<Rightarrow>
             (case py_index extensions ''persistedQuery'' of
                Inl e \<Rightarrow> Inl e
              | Inr pq \<Rightarrow> py_get pq ''sha256Hash'' JNull))
      else Inr JNull)"

definition call_record :: "flow \<Rightarrow> json \<Rightarrow> json \<Rightarrow> json \<Rightarrow> json" where
  "call_record f operation_name sha256_hash variables =
     JObj [(''host'', JStr (pretty_host f)),
           (''operationName'', operation_name),
           (''path'', JStr (path f)),
           (''sha256Hash'', sha256_hash),
           (''variables'', variables)]"

text \<open>\<^verbatim>\<open>_process_graphql_item\<close>: the append is its last statement, so a raise leaves the
  summarizer as it was.\<close>

definition process_graphql_item :: "flow \<Rightarrow> json \<Rightarrow> summarizer \<Rightarrow> py_error + summarizer" where
  "process_graphql_item f item s =
     (case py_get item ''operationName'' JNull of
        Inl e \<Rightarrow> Inl e
      | Inr operation_name \<Rightarrow>
     (case py_get item ''variables'' JNull of
        Inl e \<Rightarrow> Inl e
      | Inr variables \<Rightarrow>
     (case py_get item ''extensions'' JNull of
        Inl e \<Rightarrow> Inl e
      | Inr extensions \<Rightarrow>
     (case sha256_of extensions of
        Inl e \<Rightarrow> Inl e
      | Inr sha256_hash \<Rightarrow>
          Inr (s\<lparr>graphql_calls :=
                  graphql_calls s @ [call_record f operation_name sha256_hash variables]\<rparr>)))))"

text \<open>The loop \<^verbatim>\<open>for item in data\<close>: it stops at the first item that raises, and what the
  earlier items appended stays. The result is the summarizer as the loop left it, with
  the exception when there was one.\<close>

fun process_items :: "flow \<Rightarrow> json list \<Rightarrow> summarizer \<Rightarrow> summarizer \<times> py_error option" where
  "process_items f [] s = (s, None)"
| "process_items f (item # rest) s =
     (case process_graphql_item f item s of
        Inl e \<Rightarrow> (s, Some e)
      | Inr s' \<Rightarrow> process_items f rest s')"

text \<open>The body of the \<^verbatim>\<open>try\<close>. \<^verbatim>\<open>json.loads\<close> is the standard library's: the model takes it
  as the parameter \<open>loads\<close>.\<close>

definition try_graphql ::
  "(string \<Rightarrow> py_error + json) \<Rightarrow> flow \<Rightarrow> summarizer \<Rightarrow> summarizer \<times> py_error option" where
  "try_graphql loads f s =
     (case get_text f of
        Inl e \<Rightarrow> (s, Some e)
      | Inr None \<Rightarrow> (s, None)
      | Inr (Some content) \<Rightarrow>
          (if content \<noteq> [] then
             (case loads content of
                Inl e \<Rightarrow> (s, Some e)
              | Inr (JArr items) \<Rightarrow> process_items f items s
              | Inr data \<Rightarrow>
                  (case process_graphql_item f data s of
                     Inl e \<Rightarrow> (s, Some e)
                   | Inr s' \<Rightarrow> (s', None)))
           else (s, None)))"

text \<open>\<^verbatim>\<open>response\<close>. \<^verbatim>\<open>except Exception: pass\<close> drops whatever the \<^verbatim>\<open>try\<close> raised and keeps
  the summarizer as the \<^verbatim>\<open>try\<close> left it.\<close>

definition response ::
  "(string \<Rightarrow> py_error + json) \<Rightarrow> summarizer \<Rightarrow> flow \<Rightarrow> py_error + summarizer" where
  "response loads s f =
     (let s1 = s\<lparr>hosts := bump (hosts s) (pretty_host f)\<rparr>;
          s2 = s1\<lparr>endpoints := bump (endpoints s1) (endpoint_key f)\<rparr>
      in if contains ''/graphql'' (path f) then
           (case try_graphql loads f s2 of
              (s3, None) \<Rightarrow> Inr s3
            | (s3, Some e) \<Rightarrow> Inr s3)
         else Inr s2)"

text \<open>The host calls \<^verbatim>\<open>response\<close> once per flow; an exception would end the run.\<close>

fun run :: "(string \<Rightarrow> py_error + json) \<Rightarrow> summarizer \<Rightarrow> flow list \<Rightarrow> py_error + summarizer" where
  "run loads s [] = Inr s"
| "run loads s (f # fs) =
     (case response loads s f of Inl e \<Rightarrow> Inl e | Inr s' \<Rightarrow> run loads s' fs)"

text \<open>\<^verbatim>\<open>dict(pairs)\<close>: later pairs overwrite earlier ones with the same key.\<close>

definition dict_of :: "(string \<times> 'v) list \<Rightarrow> (string \<times> 'v) list" where
  "dict_of pairs = foldl (\<lambda>d (k, v). AList.update k v d) [] pairs"

definition tally_json :: "(string \<times> int) list \<Rightarrow> json" where
  "tally_json d = JObj (map (\<lambda>(k, c). (k, JInt c)) d)"

definition summary :: "summarizer \<Rightarrow> json" where
  "summary s =
     JObj [(''endpoints'', tally_json (dict_of (sort (endpoints s)))),
           (''graphql_calls'', JArr (graphql_calls s)),
           (''hosts'', tally_json (dict_of (sort (hosts s))))]"


section \<open>Log Inspector (analyze\_logs.py)\<close>

definition marker :: string where
  "marker = ''DEBUG: entryPoint(home-page) response:''"

text \<open>\<^verbatim>\<open>line.split(sep, 1)[1]\<close> for a separator that is not empty: the text after the first
  occurrence of \<open>sep\<close>; without one the list has a single element and the index raises.\<close>

fun after_first :: "string \<Rightarrow> string \<Rightarrow> string option" where
  "after_first sep [] = None"
| "after_first sep (c # cs) =
     (if prefix sep (c # cs) then Some (drop (length sep) (c # cs)) else after_first sep cs)"

text \<open>\<^verbatim>\<open>str.strip()\<close>: the characters below 256 that \<^verbatim>\<open>str.isspace\<close> accepts.\<close>

definition is_space :: "char \<Rightarrow> bool" where
  "is_space c \<longleftrightarrow>
     c \<in> set [CHR '' '', CHR 0x09, CHR 0x0A, CHR 0x0B, CHR 0x0C, CHR 0x0D,
              CHR 0x1C, CHR 0x1D, CHR 0x1E, CHR 0x1F, CHR 0x85, CHR 0xA0]"

definition strip :: "string \<Rightarrow> string" where
  "strip s = rev (dropWhile is_space (rev (dropWhile is_space s)))"

text \<open>Decimal digits of a number, as an f-string writes an \<^verbatim>\<open>int\<close>.\<close>

fun digits :: "nat \<Rightarrow> string" where
  "digits n =
     (if n < 10 then [''0123456789'' ! n]
      else digits (n div 10) @ [''0123456789'' ! (n mod 10)])"

declare digits.simps [simp del]

definition str_int :: "int \<Rightarrow> string" where
  "str_int i = (if i < 0 then ''-'' @ digits (nat (- i)) else digits (nat i))"

text \<open>\<^verbatim>\<open>str(value)\<close>, which is also what an f-string writes. The text of a float, a list
  or a dict is Python's \<^verbatim>\<open>repr\<close>, a parameter of the model.\<close>

fun py_str :: "(json \<Rightarrow> string) \<Rightarrow> json \<Rightarrow> string" where
  "py_str repr JNull = ''None''"
| "py_str repr (JBool b) = (if b then ''True'' else ''False'')"
| "py_str repr (JInt i) = str_int i"
| "py_str repr (JStr s) = s"
| "py_str repr v = repr v"

text \<open>\<^verbatim>\<open>len(x)\<close>, iteration over \<^verbatim>\<open>x\<close> and \<^verbatim>\<open>x.items()\<close>.\<close>

fun py_len :: "json \<Rightarrow> py_error + nat" where
  "py_len (JArr xs) = Inr (length xs)"
| "py_len (JObj kvs) = Inr (length kvs)"
| "py_len (JStr s) = Inr (length s)"
| "py_len _ = Inl TypeError"

fun py_iter :: "json \<Rightarrow> py_error + json list" where
  "py_iter (JArr xs) = Inr xs"
| "py_iter (JObj kvs) = Inr (map (\<lambda>kv. JStr (fst kv)) kvs)"
| "py_iter (JStr s) = Inr (map (\<lambda>c. JStr [c]) s)"
| "py_iter _ = Inl TypeError"

fun py_items :: "json \<Rightarrow> py_error + (string \<times> json) list" where
  "py_items (JObj kvs) = Inr kvs"
| "py_items _ = Inl AttributeError"

text \<open>The line printed for one field of a component.\<close>

definition describe :: "(json \<Rightarrow> string) \<Rightarrow> string \<Rightarrow> json \<Rightarrow> string" where
  "describe repr key v =
     (case v of
        JArr xs \<Rightarrow> ''  - '' @ key @ '': '' @ digits (length xs) @ '' items''
      | JObj kvs \<Rightarrow> ''  - '' @ key @ '': (dict)''
      | _ \<Rightarrow>
          (let val_str = py_str repr v;
               val_str = (if length val_str > 50 then take 50 val_str @ ''...'' else val_str)
           in ''  - '' @ key @ '': '' @ val_str))"

text \<open>The text of \<^verbatim>\<open>print(f"\n[{i + 1}] {typename}")\<close>.\<close>

definition heading :: "(json \<Rightarrow> string) \<Rightarrow> nat \<Rightarrow> json \<Rightarrow> string" where
  "heading repr i typename = [CHR 0x0A] @ ''['' @ digits (i + 1) @ ''] '' @ py_str repr typename"

text \<open>Standard output is the list of the texts printed, one entry per \<^verbatim>\<open>print\<close> call.
  The inner loop, over \<^verbatim>\<open>comp.items()\<close>:\<close>

fun print_fields :: "(json \<Rightarrow> string) \<Rightarrow> (string \<times> json) list \<Rightarrow> string list \<Rightarrow> string list" where
  "print_fields repr [] out = out"
| "print_fields repr ((key, v) # rest) out = print_fields repr rest (out @ [describe repr key v])"

text \<open>The outer loop, over \<^verbatim>\<open>enumerate(components)\<close>. An exception leaves what was printed.\<close>

fun print_components ::
  "(json \<Rightarrow> string) \<Rightarrow> nat \<Rightarrow> json list \<Rightarrow> string list \<Rightarrow> string list \<times> py_error option" where
  "print_components repr i [] out = (out, None)"
| "print_components repr i (entry # rest) out =
     (case py_get entry ''__typename'' (JStr ''Unknown'') of
        Inl e \<Rightarrow> (out, Some e)
      | Inr typename \<Rightarrow>
          (let out1 = out @ [heading repr i typename]
           in case py_items entry of
                Inl e \<Rightarrow> (out1, Some e)
              | Inr kvs \<Rightarrow> print_components repr (i + 1) rest (print_fields repr kvs out1)))"

text \<open>The body of the \<^verbatim>\<open>try\<close>.\<close>

definition inspect ::
  "(string \<Rightarrow> py_error + json) \<Rightarrow> (json \<Rightarrow> string) \<Rightarrow> string \<Rightarrow> string list \<times> py_error option" where
  "inspect loads repr json_str =
     (case loads json_str of
        Inl e \<Rightarrow> ([], Some e)
      | Inr data \<Rightarrow>
     (case py_get data ''data'' (JObj []) of
        Inl e \<Rightarrow> ([], Some e)
      | Inr d1 \<Rightarrow>
     (case py_get d1 ''nativeEntryPoint'' (JObj []) of
        Inl e \<Rightarrow> ([], Some e)
      | Inr d2 \<Rightarrow>
     (case py_get d2 ''visualComponents'' (JArr []) of
        Inl e \<Rightarrow> ([], Some e)
      | Inr components \<Rightarrow>
     (case py_len components of
        Inl e \<Rightarrow> ([], Some e)
      | Inr n \<Rightarrow>
          (let out = [''Found '' @ digits n @ '' components:'']
           in case py_iter components of
                Inl e \<Rightarrow> (out, Some e)
              | Inr comps \<Rightarrow> print_components repr 0 comps out))))))"

text \<open>What happens on the marker line: only \<^verbatim>\<open>json.JSONDecodeError\<close> is caught.\<close>

definition on_marker_line ::
  "(string \<Rightarrow> py_error + json) \<Rightarrow> (json \<Rightarrow> string) \<Rightarrow> string \<Rightarrow> string list \<times> py_error option" where
  "on_marker_line loads repr line =
     (case after_first ''response: '' line of
        None \<Rightarrow> ([], Some IndexError)
      | Some rest \<Rightarrow>
          (case inspect loads repr (strip rest) of
             (out, Some (JSONDecodeError msg)) \<Rightarrow> (out @ [''Failed to decode JSON: '' @ msg], None)
           | (out, r) \<Rightarrow> (out, r)))"

text \<open>The result of a run: what was printed, the exception that ended it (if any), and
  how many lines of the file the loop took.\<close>

record outcome =
  stdout :: "string list"
  raised :: "py_error option"
  lines_read :: nat

fun scan ::
  "(string \<Rightarrow> py_error + json) \<Rightarrow> (json \<Rightarrow> string) \<Rightarrow> string list \<Rightarrow> nat \<Rightarrow> outcome" where
  "scan loads repr [] n = \<lparr>stdout = [], raised = None, lines_read = n\<rparr>"
| "scan loads repr (line # rest) n =
     (if contains marker line then
        (case on_marker_line loads repr line of
           (out, r) \<Rightarrow> \<lparr>stdout = out, raised = r, lines_read = n + 1\<rparr>)
      else scan loads repr rest (n + 1))"

definition analyze_logs ::
  "(string \<Rightarrow> py_error + json) \<Rightarrow> (json \<Rightarrow> string) \<Rightarrow> string list \<Rightarrow> outcome" where
  "analyze_logs loads repr file_lines = scan loads repr file_lines 0"

section \<open>The claims' vocabulary\<close>

text \<open>The definitions of this section are not taken from the code. They say, in the words
  of the claims, what the code is compared with.\<close>

definition is_obj :: "json \<Rightarrow> bool" where
  "is_obj v = (case v of JObj kvs \<Rightarrow> True | _ \<Rightarrow> False)"

text \<open>A member of an object, null when it is absent or the value is not an object.\<close>

definition field :: "json \<Rightarrow> string \<Rightarrow> json" where
  "field v k = (case v of JObj kvs \<Rightarrow> (case map_of kvs k of None \<Rightarrow> JNull | Some x \<Rightarrow> x) | _ \<Rightarrow> JNull)"

text \<open>An \<^verbatim>\<open>extensions\<close> value the extraction can handle: falsy, or a string or list that
  does not hold \<^verbatim>\<open>persistedQuery\<close>, or an object whose \<^verbatim>\<open>persistedQuery\<close> is absent or
  an object. An item is well formed when it is an object with such \<^verbatim>\<open>extensions\<close>.\<close>

fun extensions_ok :: "json \<Rightarrow> bool" where
  "extensions_ok (JObj kvs) = (case map_of kvs ''persistedQuery'' of None \<Rightarrow> True | Some pq \<Rightarrow> is_obj pq)"
| "extensions_ok (JArr xs) = (JStr ''persistedQuery'' \<notin> set xs)"
| "extensions_ok (JStr s) = (\<not> contains ''persistedQuery'' s)"
| "extensions_ok v = (\<not> truthy v)"

definition item_ok :: "json \<Rightarrow> bool" where
  "item_ok item = (is_obj item \<and> extensions_ok (field item ''extensions''))"

text \<open>The record a well-formed item stands for: the flow's host and path, the item's
  \<^verbatim>\<open>operationName\<close> and \<^verbatim>\<open>variables\<close>, and the hash under
  \<^verbatim>\<open>extensions.persistedQuery.sha256Hash\<close>, each null when absent.\<close>

definition expected_record :: "flow \<Rightarrow> json \<Rightarrow> json" where
  "expected_record f item =
     JObj [(''host'', JStr (pretty_host f)),
           (''operationName'', field item ''operationName''),
           (''path'', JStr (path f)),
           (''sha256Hash'', field (field (field item ''extensions'') ''persistedQuery'') ''sha256Hash''),
           (''variables'', field item ''variables'')]"

text \<open>The records one flow adds: those of the well-formed items that come before the
  first malformed one.\<close>

definition records_of :: "(string \<Rightarrow> py_error + json) \<Rightarrow> flow \<Rightarrow> json list" where
  "records_of loads f =
     (if contains ''/graphql'' (path f) then
        (case get_text f of
           Inr (Some content) \<Rightarrow>
             (if content = [] then []
              else (case loads content of
                      Inl e \<Rightarrow> []
                    | Inr (JArr items) \<Rightarrow> map (expected_record f) (takeWhile item_ok items)
                    | Inr data \<Rightarrow> (if item_ok data then [expected_record f data] else [])))
         | _ \<Rightarrow> [])
      else [])"







section \<open>Sample data\<close>

text \<open>A parser that knows the texts used in the examples below and answers each with the
  value \<^verbatim>\<open>json.loads\<close> gives for it; on any other text it raises as \<^verbatim>\<open>json.loads\<close> does
  on text that is not JSON.\<close>

definition sample_loads :: "string \<Rightarrow> py_error + json" where
  \<open>sample_loads text =
     (case map_of
        [(''[{"operationName":"A","variables":{"id":1}},{"operationName":"B","extensions":{"persistedQuery":{"sha256Hash":"abc"}}}]'',
          JArr [JObj [(''operationName'', JStr ''A''), (''variables'', JObj [(''id'', JInt 1)])],
                JObj [(''operationName'', JStr ''B''),
                      (''extensions'',
                       JObj [(''persistedQuery'', JObj [(''sha256Hash'', JStr ''abc'')])])]]),
         (''[{"operationName":"A","extensions":{"persistedQuery":null}}]'',
          JArr [JObj [(''operationName'', JStr ''A''),
                      (''extensions'', JObj [(''persistedQuery'', JNull)])]]),
         (''[{"operationName":"A"},7,{"operationName":"C"}]'',
          JArr [JObj [(''operationName'', JStr ''A'')], JInt 7,
                JObj [(''operationName'', JStr ''C'')]]),
         (''{"data":{"nativeEntryPoint":{"visualComponents":[{"__typename":"Banner","items":[1,2],"meta":{},"title":"Hi"},{"id":5}]}}}'',
          JObj [(''data'', JObj [(''nativeEntryPoint'', JObj [(''visualComponents'',
            JArr [JObj [(''__typename'', JStr ''Banner''), (''items'', JArr [JInt 1, JInt 2]),
                        (''meta'', JObj []), (''title'', JStr ''Hi'')],
                  JObj [(''id'', JInt 5)]])])])]),
         (''{"data":{"nativeEntryPoint":{"visualComponents":[{"__typename":"Banner"}]}}}'',
          JObj [(''data'', JObj [(''nativeEntryPoint'', JObj [(''visualComponents'',
            JArr [JObj [(''__typename'', JStr ''Banner'')]])])])]),
         (''{"data":{"nativeEntryPoint":{"visualComponents":""}}}'',
          JObj [(''data'', JObj [(''nativeEntryPoint'', JObj [(''visualComponents'',
            JStr [])])])]),
         (''{"data":{"nativeEntryPoint":null}}'',
          JObj [(''data'', JObj [(''nativeEntryPoint'', JNull)])])]
        text of
        Some v \<Rightarrow> Inr v
      | None \<Rightarrow> Inl (JSONDecodeError ''Expecting value: line 1 column 1 (char 0)''))\<close>

definition graphql_flow :: "string \<Rightarrow> flow" where
  "graphql_flow body =
     \<lparr>pretty_host = ''api.example.com'', method = ''POST'',
      url = ''https://api.example.com/graphql'', path = ''/graphql'',
      get_text = Inr (Some body)\<rparr>"

definition plain_flow :: "string \<Rightarrow> string \<Rightarrow> string \<Rightarrow> string \<Rightarrow> flow" where
  "plain_flow h m u p = \<lparr>pretty_host = h, method = m, url = u, path = p, get_text = Inr None\<rparr>"


definition sample_repr :: "json \<Rightarrow> string" where
  "sample_repr v = ''<repr>''"




section \<open>Flow Summarizer: what one call does\<close>

lemma map_of_in_keys: "(k \<in> fst ` set kvs) = (map_of kvs k \<noteq> None)"
  by (simp add: map_of_eq_None_iff)

lemma sha256_of_ok:
  "extensions_ok ext \<Longrightarrow> sha256_of ext = Inr (field (field ext ''persistedQuery'') ''sha256Hash'')"
  by (cases ext)
     (auto simp: sha256_of_def field_def is_obj_def map_of_in_keys
           split: option.splits json.splits bool.splits sum.splits)

lemma sha256_of_bad: "\<not> extensions_ok ext \<Longrightarrow> \<exists>e. sha256_of ext = Inl e"
  by (cases ext)
     (auto simp: sha256_of_def field_def is_obj_def map_of_in_keys
           split: option.splits json.splits bool.splits sum.splits pyfloat.splits)

lemma process_graphql_item_ok:
  "item_ok item \<Longrightarrow>
   process_graphql_item f item s =
     Inr (s\<lparr>graphql_calls := graphql_calls s @ [expected_record f item]\<rparr>)"
  by (cases item)
     (auto simp: item_ok_def is_obj_def process_graphql_item_def expected_record_def
                 call_record_def field_def sha256_of_ok
           split: option.splits)

lemma process_graphql_item_bad:
  "\<not> item_ok item \<Longrightarrow> \<exists>e. process_graphql_item f item s = Inl e"
  by (cases item)
     (auto simp: item_ok_def is_obj_def process_graphql_item_def field_def
           dest: sha256_of_bad split: option.splits sum.splits)

lemma process_items_fst:
  "fst (process_items f items s) =
     s\<lparr>graphql_calls := graphql_calls s @ map (expected_record f) (takeWhile item_ok items)\<rparr>"
proof (induction items arbitrary: s)
  case Nil
  show ?case by simp
next
  case (Cons item rest)
  show ?case
  proof (cases "item_ok item")
    case True
    then show ?thesis
      by (simp add: process_graphql_item_ok Cons.IH)
  next
    case False
    then obtain e where "process_graphql_item f item s = Inl e"
      using process_graphql_item_bad by blast
    with False show ?thesis by simp
  qed
qed

lemma try_graphql_fst:
  "fst (try_graphql loads f s) =
     s\<lparr>graphql_calls := graphql_calls s @
         (case get_text f of
           Inr (Some content) \<Rightarrow>
             (if content = [] then []
              else (case loads content of
                      Inl e \<Rightarrow> []
                    | Inr (JArr items) \<Rightarrow> map (expected_record f) (takeWhile item_ok items)
                    | Inr data \<Rightarrow> (if item_ok data then [expected_record f data] else [])))
         | _ \<Rightarrow> [])\<rparr>"
proof (cases "get_text f")
  case (Inl e)
  then show ?thesis by (simp add: try_graphql_def)
next
  case (Inr opt)
  show ?thesis
  proof (cases opt)
    case None
    with Inr show ?thesis by (simp add: try_graphql_def)
  next
    case (Some content)
    show ?thesis
    proof (cases "loads content")
      case (Inl e)
      with Inr Some show ?thesis by (simp add: try_graphql_def)
    next
      case loaded: (Inr data)
      have not_obj: "\<not> is_obj data \<Longrightarrow> process_graphql_item f data s = Inl AttributeError"
        by (cases data) (simp_all add: is_obj_def process_graphql_item_def)
      show ?thesis
      proof (cases "\<exists>items. data = JArr items")
        case True
        then obtain items where "data = JArr items" by blast
        with Inr Some loaded show ?thesis
          by (simp add: try_graphql_def process_items_fst)
      next
        case False
        have step: "process_graphql_item f data s =
                      (if item_ok data
                       then Inr (s\<lparr>graphql_calls := graphql_calls s @ [expected_record f data]\<rparr>)
                       else process_graphql_item f data s)"
          by (simp add: process_graphql_item_ok)
        obtain r where r: "process_graphql_item f data s = r" by simp
        have bad: "\<not> item_ok data \<Longrightarrow> \<exists>e. r = Inl e"
          using process_graphql_item_bad r by blast
        have good: "item_ok data \<Longrightarrow>
                    r = Inr (s\<lparr>graphql_calls := graphql_calls s @ [expected_record f data]\<rparr>)"
          using process_graphql_item_ok r by simp
        from False Inr Some loaded r bad good show ?thesis
          by (cases data; cases "item_ok data") (auto simp: try_graphql_def)
      qed
    qed
  qed
qed

lemma response_eq:
  "response loads s f =
     Inr (s\<lparr>hosts := bump (hosts s) (pretty_host f),
            endpoints := bump (endpoints s) (endpoint_key f),
            graphql_calls := graphql_calls s @ records_of loads f\<rparr>)"
proof (cases "contains ''/graphql'' (path f)")
  case False
  then show ?thesis by (simp add: response_def records_of_def Let_def)
next
  case True
  let ?s2 = "s\<lparr>hosts := bump (hosts s) (pretty_host f),
               endpoints := bump (endpoints s) (endpoint_key f)\<rparr>"
  obtain s3 r where t: "try_graphql loads f ?s2 = (s3, r)"
    by (cases "try_graphql loads f ?s2") 
  have "s3 = fst (try_graphql loads f ?s2)" using t by simp
  then have s3: "s3 = ?s2\<lparr>graphql_calls := graphql_calls ?s2 @ records_of loads f\<rparr>"
    using True by (simp add: try_graphql_fst records_of_def)
  show ?thesis
    using True t s3 by (cases r) (simp_all add: response_def Let_def)
qed

lemma get0_bump: "get0 (bump d k) k = get0 d k + 1"
  by (simp add: get0_def bump_def update_conv')

lemma map_of_bump: "map_of (bump d k) = (map_of d)(k \<mapsto> get0 d k + 1)"
  by (simp add: bump_def update_conv')

section \<open>Flow Summarizer: sequences of calls and the summary\<close>

lemma records_of_batch:
  assumes "contains ''/graphql'' (path f)" and "get_text f = Inr (Some content)"
    and "content \<noteq> []" and "loads content = Inr (JArr items)"
  shows "records_of loads f = map (expected_record f) (takeWhile item_ok items)"
  using assms by (simp add: records_of_def)

lemma run_total: "\<exists>s'. run loads s fs = Inr s'"
  by (induction fs arbitrary: s) (simp_all add: response_eq)

lemma run_replicate:
  "run loads s (replicate n f) = Inr s' \<Longrightarrow>
   get0 (endpoints s') (endpoint_key f) = get0 (endpoints s) (endpoint_key f) + int n
   \<and> get0 (hosts s') (pretty_host f) = get0 (hosts s) (pretty_host f) + int n"
  by (induction n arbitrary: s) (auto simp: response_eq get0_bump)









section \<open>Log Inspector: the loops and the scan\<close>



lemma scan_no_marker:
  "\<forall>line \<in> set file_lines. \<not> contains marker line \<Longrightarrow>
   scan loads repr file_lines n = \<lparr>stdout = [], raised = None, lines_read = n + length file_lines\<rparr>"
  by (induction file_lines arbitrary: n) simp_all









section \<open>Flow Summarizer: the claims\<close>

text \<open>
  Claim C1, as amended. For every flow whose path contains "/graphql" and whose body
  parses as a JSON array of k well-formed items, one call to \<^verbatim>\<open>response\<close> appends exactly
  k records, in array order. An item is well formed when it is an object whose
  \<^verbatim>\<open>extensions\<close> is absent, null, false, zero, a string or a list that does not contain
  "persistedQuery", or an object whose \<^verbatim>\<open>persistedQuery\<close> is absent or is itself an
  object. Each record has
  the item's \<^verbatim>\<open>operationName\<close>, \<^verbatim>\<open>variables\<close> and the hash under
  \<^verbatim>\<open>extensions.persistedQuery.sha256Hash\<close> (null when absent) and the flow's host and
  path. A text that parses as JSON is never empty, hence the third hypothesis.
\<close>

theorem batch_appends_k_records:
  assumes "contains ''/graphql'' (path f)" and "get_text f = Inr (Some content)"
    and "content \<noteq> []" and "loads content = Inr (JArr items)"
    and "list_all item_ok items"
  shows "\<exists>s'. response loads s f = Inr s'
      \<and> graphql_calls s' = graphql_calls s @ map (expected_record f) items
      \<and> length (graphql_calls s') = length (graphql_calls s) + length items"
proof -
  have all_taken: "takeWhile item_ok items = items"
    using assms(5) by (simp add: list_all_iff)
  show ?thesis
    using records_of_batch [of f content loads items] assms(1-4)
    by (simp add: response_eq all_taken)
qed

text \<open>
  A batch of two well-formed items, the second with a persisted query hash.
\<close>

theorem batch_appends_k_records_witness:
  \<open>contains ''/graphql'' ''/graphql''
   \<and> list_all item_ok
        [JObj [(''operationName'', JStr ''A''), (''variables'', JObj [(''id'', JInt 1)])],
         JObj [(''operationName'', JStr ''B''),
               (''extensions'',
                JObj [(''persistedQuery'', JObj [(''sha256Hash'', JStr ''abc'')])])]]
   \<and> response sample_loads (init Map.empty)
       (graphql_flow ''[{"operationName":"A","variables":{"id":1}},{"operationName":"B","extensions":{"persistedQuery":{"sha256Hash":"abc"}}}]'') =
     Inr \<lparr>endpoints = [(''POST https://api.example.com/graphql'', 1)],
          graphql_calls =
            [JObj [(''host'', JStr ''api.example.com''), (''operationName'', JStr ''A''),
                   (''path'', JStr ''/graphql''), (''sha256Hash'', JNull),
                   (''variables'', JObj [(''id'', JInt 1)])],
             JObj [(''host'', JStr ''api.example.com''), (''operationName'', JStr ''B''),
                   (''path'', JStr ''/graphql''), (''sha256Hash'', JStr ''abc''),
                   (''variables'', JNull)]],
          hosts = [(''api.example.com'', 1)],
          output_path = ''summary.json''\<rparr>\<close>
proof -
  let ?body = \<open>''[{"operationName":"A","variables":{"id":1}},{"operationName":"B","extensions":{"persistedQuery":{"sha256Hash":"abc"}}}]''\<close>
  let ?items = "[JObj [(''operationName'', JStr ''A''), (''variables'', JObj [(''id'', JInt 1)])],
         JObj [(''operationName'', JStr ''B''),
               (''extensions'',
                JObj [(''persistedQuery'', JObj [(''sha256Hash'', JStr ''abc'')])])]]"
  have h1: "contains ''/graphql'' (path (graphql_flow ?body))"
    by (simp add: graphql_flow_def)
  have h2: "get_text (graphql_flow ?body) = Inr (Some ?body)"
    by (simp add: graphql_flow_def)
  have h3: "?body \<noteq> []" by simp
  have h4: "sample_loads ?body = Inr (JArr ?items)"
    by (simp add: sample_loads_def)
  have h5: "list_all item_ok ?items"
    by (simp add: item_ok_def is_obj_def field_def)
  from batch_appends_k_records
         [of "graphql_flow ?body" ?body sample_loads ?items "init Map.empty"]
       h1 h2 h3 h4 h5
  show ?thesis
    by (auto simp: response_eq graphql_flow_def init_def bump_def get0_def endpoint_key_def
          expected_record_def field_def)
qed

text \<open>
  The claim as first stated asks only that the k items are objects. The body
  \<^verbatim>\<open>[{"operationName":"A","extensions":{"persistedQuery":null}}]\<close> is an array of one
  object, and the call appends no record: \<^verbatim>\<open>None.get\<close> raises inside the \<^verbatim>\<open>try\<close>.
\<close>

theorem batch_of_objects_counterexample:
  \<open>contains ''/graphql'' (path (graphql_flow ''[{"operationName":"A","extensions":{"persistedQuery":null}}]''))
   \<and> sample_loads ''[{"operationName":"A","extensions":{"persistedQuery":null}}]'' =
       Inr (JArr [JObj [(''operationName'', JStr ''A''),
                        (''extensions'', JObj [(''persistedQuery'', JNull)])]])
   \<and> list_all is_obj [JObj [(''operationName'', JStr ''A''),
                             (''extensions'', JObj [(''persistedQuery'', JNull)])]]
   \<and> response sample_loads (init Map.empty)
       (graphql_flow ''[{"operationName":"A","extensions":{"persistedQuery":null}}]'') =
     Inr \<lparr>endpoints = [(''POST https://api.example.com/graphql'', 1)],
          graphql_calls = [],
          hosts = [(''api.example.com'', 1)],
          output_path = ''summary.json''\<rparr>\<close>
  by (simp add: response_def try_graphql_def process_graphql_item_def sha256_of_def
        graphql_flow_def sample_loads_def init_def bump_def get0_def endpoint_key_def
        is_obj_def Let_def)

text \<open>
  Claim C2. For every flow, every request body (also one that cannot be decoded, is not
  JSON or is a malformed GraphQL payload) and every parser, \<^verbatim>\<open>response\<close> returns without
  an exception, and the host and endpoint tallies are bumped by one for the flow's host
  and its "METHOD URL" key: the tallies after the call are the same whatever the body is.
\<close>

theorem response_never_raises:
  "\<exists>s'. response loads s f = Inr s'
      \<and> hosts s' = bump (hosts s) (pretty_host f)
      \<and> endpoints s' = bump (endpoints s) (endpoint_key f)
      \<and> get0 (hosts s') (pretty_host f) = get0 (hosts s) (pretty_host f) + 1
      \<and> get0 (endpoints s') (endpoint_key f) = get0 (endpoints s) (endpoint_key f) + 1
      \<and> (\<forall>loads' body. \<exists>s''. response loads' s (f\<lparr>get_text := body\<rparr>) = Inr s''
            \<and> hosts s'' = hosts s' \<and> endpoints s'' = endpoints s')"
  by (simp add: response_eq get0_bump endpoint_key_def)

text \<open>A body that is not JSON: both tallies are counted, no record is added.\<close>

theorem response_never_raises_witness:
  \<open>response sample_loads (init Map.empty) (graphql_flow ''<html>not json</html>'') =
     Inr \<lparr>endpoints = [(''POST https://api.example.com/graphql'', 1)],
          graphql_calls = [],
          hosts = [(''api.example.com'', 1)],
          output_path = ''summary.json''\<rparr>\<close>
  using response_never_raises [of sample_loads "init Map.empty" "graphql_flow ''<html>not json</html>''"]
  by (auto simp: init_def graphql_flow_def bump_def get0_def endpoint_key_def response_def
        try_graphql_def sample_loads_def Let_def)




text \<open>
  Claim C4. The flows GET http://a/x, GET http://a/x, POST http://b/y (hosts a, a, b),
  whatever their paths and bodies, give hosts = {"a":2,"b":1} and
  endpoints = {"GET http://a/x":2, "POST http://b/y":1}; and n identical requests give
  the tally n for the request's "METHOD URL" key and for its host.
\<close>

theorem tallies_count_requests:
  "(\<exists>s'. run loads (init env)
            [\<lparr>pretty_host = ''a'', method = ''GET'', url = ''http://a/x'', path = p1, get_text = b1\<rparr>,
             \<lparr>pretty_host = ''a'', method = ''GET'', url = ''http://a/x'', path = p2, get_text = b2\<rparr>,
             \<lparr>pretty_host = ''b'', method = ''POST'', url = ''http://b/y'', path = p3, get_text = b3\<rparr>]
          = Inr s'
        \<and> hosts s' = [(''a'', 2), (''b'', 1)]
        \<and> endpoints s' = [(''GET http://a/x'', 2), (''POST http://b/y'', 1)])
   \<and> (\<exists>s'. run loads (init env) (replicate n f) = Inr s'
        \<and> get0 (endpoints s') (endpoint_key f) = int n
        \<and> get0 (hosts s') (pretty_host f) = int n
        \<and> (0 < n \<longrightarrow> map_of (endpoints s') (endpoint_key f) = Some (int n)))"
proof
  show "\<exists>s'. run loads (init env)
            [\<lparr>pretty_host = ''a'', method = ''GET'', url = ''http://a/x'', path = p1, get_text = b1\<rparr>,
             \<lparr>pretty_host = ''a'', method = ''GET'', url = ''http://a/x'', path = p2, get_text = b2\<rparr>,
             \<lparr>pretty_host = ''b'', method = ''POST'', url = ''http://b/y'', path = p3, get_text = b3\<rparr>]
          = Inr s'
        \<and> hosts s' = [(''a'', 2), (''b'', 1)]
        \<and> endpoints s' = [(''GET http://a/x'', 2), (''POST http://b/y'', 1)]"
    by (simp add: response_eq init_def bump_def get0_def endpoint_key_def)
next
  obtain s' where r: "run loads (init env) (replicate n f) = Inr s'"
    using run_total by blast
  from run_replicate [OF r]
  have e: "get0 (endpoints s') (endpoint_key f) = int n"
    and h: "get0 (hosts s') (pretty_host f) = int n"
    by (simp_all add: init_def get0_def)
  have "0 < n \<longrightarrow> map_of (endpoints s') (endpoint_key f) = Some (int n)"
    using e by (auto simp: get0_def split: option.splits)
  with r e h
  show "\<exists>s'. run loads (init env) (replicate n f) = Inr s'
        \<and> get0 (endpoints s') (endpoint_key f) = int n
        \<and> get0 (hosts s') (pretty_host f) = int n
        \<and> (0 < n \<longrightarrow> map_of (endpoints s') (endpoint_key f) = Some (int n))"
    by blast
qed

text \<open>
  Three identical requests.
\<close>

theorem tallies_count_requests_witness:
  "run sample_loads (init Map.empty)
     (replicate 3 (plain_flow ''a'' ''GET'' ''http://a/x'' ''/x'')) =
   Inr \<lparr>endpoints = [(''GET http://a/x'', 3)], graphql_calls = [],
        hosts = [(''a'', 3)], output_path = ''summary.json''\<rparr>
   \<and> (0::nat) < 3
   \<and> map_of [(''GET http://a/x'', 3::int)] ''GET http://a/x'' = Some 3"
  using tallies_count_requests
    [of sample_loads Map.empty "''/x''" "Inr None" "''/x''" "Inr None" "''/y''" "Inr None" 3
        "plain_flow ''a'' ''GET'' ''http://a/x'' ''/x''"]
  by (simp add: numeral_3_eq_3 response_def plain_flow_def init_def bump_def get0_def
        endpoint_key_def Let_def)

text \<open>
  Claim C5. For every summarizer and every call of \<^verbatim>\<open>response\<close>, each host count and
  each endpoint count present before the call is still present after it and has not
  decreased, and the call records before the call are a prefix of those after it.
\<close>

theorem response_monotone:
  assumes "response loads s f = Inr s'"
  shows "(\<forall>h c. map_of (hosts s) h = Some c \<longrightarrow> (\<exists>c'. map_of (hosts s') h = Some c' \<and> c \<le> c'))
       \<and> (\<forall>k c. map_of (endpoints s) k = Some c \<longrightarrow>
             (\<exists>c'. map_of (endpoints s') k = Some c' \<and> c \<le> c'))
       \<and> prefix (graphql_calls s) (graphql_calls s')"
  using assms by (auto simp: response_eq map_of_bump get0_def)

text \<open>
  A call that bumps one host, leaves another as it was and appends one record.
\<close>

theorem response_monotone_witness:
  \<open>response sample_loads
     \<lparr>endpoints = [(''POST https://api.example.com/graphql'', 1)],
      graphql_calls = [JStr ''earlier''],
      hosts = [(''api.example.com'', 1), (''cdn.example.com'', 4)],
      output_path = ''summary.json''\<rparr>
     (graphql_flow ''[{"operationName":"A"},7,{"operationName":"C"}]'') =
   Inr \<lparr>endpoints = [(''POST https://api.example.com/graphql'', 2)],
        graphql_calls =
          [JStr ''earlier'',
           JObj [(''host'', JStr ''api.example.com''), (''operationName'', JStr ''A''),
                 (''path'', JStr ''/graphql''), (''sha256Hash'', JNull),
                 (''variables'', JNull)]],
        hosts = [(''api.example.com'', 2), (''cdn.example.com'', 4)],
        output_path = ''summary.json''\<rparr>
   \<and> map_of [(''api.example.com'', 1::int), (''cdn.example.com'', 4)] ''cdn.example.com'' = Some 4
   \<and> map_of [(''api.example.com'', 2::int), (''cdn.example.com'', 4)] ''cdn.example.com'' = Some 4
   \<and> prefix [JStr ''earlier'']
        [JStr ''earlier'',
         JObj [(''host'', JStr ''api.example.com''), (''operationName'', JStr ''A''),
               (''path'', JStr ''/graphql''), (''sha256Hash'', JNull),
               (''variables'', JNull)]]\<close>
proof -
  let ?s = "\<lparr>endpoints = [(''POST https://api.example.com/graphql'', 1::int)],
             graphql_calls = [JStr ''earlier''],
             hosts = [(''api.example.com'', 1::int), (''cdn.example.com'', 4)],
             output_path = ''summary.json''\<rparr>"
  let ?s' = "\<lparr>endpoints = [(''POST https://api.example.com/graphql'', 2::int)],
        graphql_calls =
          [JStr ''earlier'',
           JObj [(''host'', JStr ''api.example.com''), (''operationName'', JStr ''A''),
                 (''path'', JStr ''/graphql''), (''sha256Hash'', JNull),
                 (''variables'', JNull)]],
        hosts = [(''api.example.com'', 2::int), (''cdn.example.com'', 4)],
        output_path = ''summary.json''\<rparr>"
  have call: \<open>response sample_loads ?s
               (graphql_flow ''[{"operationName":"A"},7,{"operationName":"C"}]'') = Inr ?s'\<close>
    by (simp add: response_eq records_of_def graphql_flow_def sample_loads_def bump_def
          get0_def endpoint_key_def item_ok_def is_obj_def field_def expected_record_def)
  from response_monotone [OF call] call show ?thesis by simp
qed

text \<open>
  Claim C7. For every flow whose path does not contain "/graphql", \<^verbatim>\<open>response\<close> changes
  only the endpoint entry of the flow's "METHOD URL" key and the host entry of the
  flow's host (each becomes its former count plus one); the call records and the output
  path are unchanged.
\<close>

theorem response_non_graphql_frame:
  assumes "\<not> contains ''/graphql'' (path f)"
  shows "\<exists>s'. response loads s f = Inr s'
      \<and> graphql_calls s' = graphql_calls s
      \<and> output_path s' = output_path s
      \<and> (\<forall>k. k \<noteq> endpoint_key f \<longrightarrow> map_of (endpoints s') k = map_of (endpoints s) k)
      \<and> (\<forall>h. h \<noteq> pretty_host f \<longrightarrow> map_of (hosts s') h = map_of (hosts s) h)
      \<and> map_of (endpoints s') (endpoint_key f) = Some (get0 (endpoints s) (endpoint_key f) + 1)
      \<and> map_of (hosts s') (pretty_host f) = Some (get0 (hosts s) (pretty_host f) + 1)"
  using assms by (simp add: response_eq records_of_def map_of_bump)

text \<open>
  A first request to a new host and endpoint.
\<close>

theorem response_non_graphql_frame_witness:
  "\<not> contains ''/graphql'' ''/x''
   \<and> response sample_loads
       \<lparr>endpoints = [(''POST http://b/y'', 1)], graphql_calls = [JStr ''earlier''],
        hosts = [(''b'', 1)], output_path = ''out.json''\<rparr>
       (plain_flow ''a'' ''GET'' ''http://a/x'' ''/x'') =
     Inr \<lparr>endpoints = [(''POST http://b/y'', 1), (''GET http://a/x'', 1)],
          graphql_calls = [JStr ''earlier''],
          hosts = [(''b'', 1), (''a'', 1)], output_path = ''out.json''\<rparr>"
  using response_non_graphql_frame
    [of "plain_flow ''a'' ''GET'' ''http://a/x'' ''/x''" sample_loads
        "\<lparr>endpoints = [(''POST http://b/y'', 1)], graphql_calls = [JStr ''earlier''],
          hosts = [(''b'', 1)], output_path = ''out.json''\<rparr>"]
  by (simp add: response_def plain_flow_def bump_def get0_def endpoint_key_def Let_def)

text \<open>
  Claim C10. Batched extraction is not atomic: when the body parses as a JSON array whose
  item at index i is the first malformed one (not an object, for example), \<^verbatim>\<open>response\<close>
  appends the records of the i items before it, nothing for item i or any later item,
  and returns without an exception.
\<close>

theorem batch_not_atomic:
  assumes "contains ''/graphql'' (path f)" and "get_text f = Inr (Some content)"
    and "content \<noteq> []" and "loads content = Inr (JArr items)"
    and "i < length items" and "\<not> item_ok (items ! i)" and "\<forall>j<i. item_ok (items ! j)"
  shows "\<exists>s'. response loads s f = Inr s'
      \<and> graphql_calls s' = graphql_calls s @ map (expected_record f) (take i items)
      \<and> length (graphql_calls s') = length (graphql_calls s) + i"
proof -
  have taken: "takeWhile item_ok items = take i items"
    using assms(5-7) by (intro takeWhile_eq_take_P_nth) auto
  show ?thesis
    using records_of_batch [of f content loads items] assms(1-5)
    by (simp add: response_eq taken)
qed

text \<open>
  A batch of three whose second item is the number 7: the flow contributes the record
  of the first item only, a non-empty strict prefix of its batch.
\<close>

theorem batch_not_atomic_witness:
  \<open>\<not> item_ok (JInt 7)
   \<and> response sample_loads (init Map.empty)
       (graphql_flow ''[{"operationName":"A"},7,{"operationName":"C"}]'') =
     Inr \<lparr>endpoints = [(''POST https://api.example.com/graphql'', 1)],
          graphql_calls =
            [JObj [(''host'', JStr ''api.example.com''), (''operationName'', JStr ''A''),
                   (''path'', JStr ''/graphql''), (''sha256Hash'', JNull),
                   (''variables'', JNull)]],
          hosts = [(''api.example.com'', 1)],
          output_path = ''summary.json''\<rparr>\<close>
proof -
  let ?body = \<open>''[{"operationName":"A"},7,{"operationName":"C"}]''\<close>
  let ?items = "[JObj [(''operationName'', JStr ''A'')], JInt 7,
                 JObj [(''operationName'', JStr ''C'')]]"
  have h1: "contains ''/graphql'' (path (graphql_flow ?body))"
    by (simp add: graphql_flow_def)
  have h2: "get_text (graphql_flow ?body) = Inr (Some ?body)"
    by (simp add: graphql_flow_def)
  have h3: "?body \<noteq> []" by simp
  have h4: "sample_loads ?body = Inr (JArr ?items)"
    by (simp add: sample_loads_def)
  have h5: "1 < length ?items" by simp
  have h6: "\<not> item_ok (?items ! 1)"
    by (simp add: item_ok_def is_obj_def)
  have h7: "\<forall>j<1. item_ok (?items ! j)"
    by (simp add: item_ok_def is_obj_def field_def)
  from batch_not_atomic
         [of "graphql_flow ?body" ?body sample_loads ?items 1 "init Map.empty"]
       h1 h2 h3 h4 h5 h6 h7
  show ?thesis
    by (auto simp: response_eq graphql_flow_def init_def bump_def get0_def endpoint_key_def
          expected_record_def field_def)
qed

section \<open>Log Inspector: the claims\<close>





text \<open>
  Claim C8. For every log file in which no line contains the marker, the Log Inspector
  reads all the lines, prints nothing and raises nothing.
\<close>

theorem no_marker_no_output:
  assumes "\<forall>line \<in> set file_lines. \<not> contains marker line"
  shows "analyze_logs loads repr file_lines =
           \<lparr>stdout = [], raised = None, lines_read = length file_lines\<rparr>"
  using scan_no_marker [OF assms, of loads repr 0] by (simp add: analyze_logs_def)

text \<open>
  Two lines, the second close to the marker but for another entry point.
\<close>

theorem no_marker_no_output_witness:
  "analyze_logs sample_loads sample_repr
     [''server started'' @ [CHR 0x0A], ''DEBUG: entryPoint(cart) response: {}'' @ [CHR 0x0A]] =
   \<lparr>stdout = [], raised = None, lines_read = 2\<rparr>"
proof -
  have "\<forall>line \<in> set [''server started'' @ [CHR 0x0A],
                       ''DEBUG: entryPoint(cart) response: {}'' @ [CHR 0x0A]].
          \<not> contains marker line"
    by (simp add: marker_def)
  from no_marker_no_output [OF this, of sample_loads sample_repr] show ?thesis by simp
qed




end
